theory Spec2Isabelle
  imports Main "HOL-Library.Sublist"
begin

section \<open>The patient store, the risk classifier and the alert log of app.py\<close>

text \<open>
  The application keeps two files: \<^verbatim>\<open>patients.json\<close>, one JSON document holding the whole
  patient collection, and \<^verbatim>\<open>alerts.log\<close>, a text file that only grows. Every request
  handler loads the whole document, changes it in memory and saves it again.

  Python integers are unbounded, so they are \<^typ>\<open>int\<close>. Strings are \<^typ>\<open>string\<close>.
  A dictionary with the five fixed keys of a patient is a record, the dictionary of
  patients is a map from names to such records.
\<close>

subsection \<open>Data\<close>

text \<open>
  The dictionary \<^verbatim>\<open>{"bp_sys": .., "bp_dia": .., "pulse": .., "risk": ..}\<close> built by
  \<^verbatim>\<open>patient_details\<close>. The risk is one of the strings returned by
  \<^verbatim>\<open>assess_risk\<close>; the source has no enumeration type for it.
\<close>

record vital_reading =
  bp_sys :: int
  bp_dia :: int
  pulse :: int
  risk :: string

text \<open>The dictionary built by \<^verbatim>\<open>add_patient\<close>.\<close>

record patient =
  doctor :: string
  disease :: string
  medicines :: "string list"
  tests :: string
  vitals :: "vital_reading list"

type_synonym patients = "string \<rightharpoonup> patient"

text \<open>
  The exceptions that reading the store and the handlers can raise. \<^verbatim>\<open>ValueError\<close> is
  the plain one, of \<^verbatim>\<open>int\<close>; the two decoding errors are kept apart from it.
\<close>

datatype py_error =
  JSONDecodeError
  | UnicodeDecodeError
  | BadRequestKeyError string
  | ValueError
  | KeyError string

subsection \<open>The two files\<close>

text \<open>
  What \<^verbatim>\<open>patients.json\<close> holds, when it exists: a text that \<^verbatim>\<open>json.load\<close> reads as
  a patient dictionary, or a text that \<^verbatim>\<open>json.load\<close> rejects. The text layer of the
  \<^verbatim>\<open>json\<close> library is not part of app.py: a well-formed file is identified with the
  dictionary that \<^verbatim>\<open>json.load\<close> returns for it, and \<^verbatim>\<open>json.dump\<close> of a dictionary
  writes a file that reads back as that dictionary (which is what the library does on
  dictionaries with string keys whose values are strings, integers and lists of them).
  A well-formed document of another shape, a list say, is outside this type: the
  handlers never write one.
\<close>

datatype stored = Document patients | Rejected py_error

text \<open>
  The file system, as far as app.py touches it. \<^verbatim>\<open>None\<close> is a file that does not
  exist. The two paths, \<^verbatim>\<open>"patients.json"\<close> and \<^verbatim>\<open>"alerts.log"\<close>, differ, so the two
  files are independent fields. The alert log is its raw text.
\<close>

record files =
  patients_file :: "stored option"
  alerts_file :: "string option"

subsection \<open>Utility functions\<close>

definition load_patients :: "files \<Rightarrow> py_error + patients" where
  "load_patients fs =
     (case patients_file fs of
        None \<Rightarrow> Inr Map.empty
      | Some (Rejected e) \<Rightarrow> Inl e
      | Some (Document d) \<Rightarrow> Inr d)"

text \<open>Mode \<^verbatim>\<open>"w"\<close>: the file is created or truncated, then written.\<close>

definition save_patients :: "patients \<Rightarrow> files \<Rightarrow> files" where
  "save_patients data fs = fs\<lparr>patients_file := Some (Document data)\<rparr>"

text \<open>
  Mode \<^verbatim>\<open>"a"\<close>: the file is created when absent, and the text goes to its end.
  \<open>now\<close> is the text of \<^verbatim>\<open>datetime.datetime.now()\<close> at the moment of the call.
\<close>

definition log_alert :: "string \<Rightarrow> string \<Rightarrow> files \<Rightarrow> files" where
  "log_alert now message fs =
     fs\<lparr>alerts_file :=
          Some ((case alerts_file fs of None \<Rightarrow> [] | Some t \<Rightarrow> t)
                @ now @ '' - '' @ message @ [CHR 0x0A])\<rparr>"

definition assess_risk :: "int \<Rightarrow> int \<Rightarrow> int \<Rightarrow> string" where
  "assess_risk s d p =
     (if s > 160 \<or> d > 100 \<or> p > 120 then ''HIGH''
      else if (140 \<le> s \<and> s \<le> 160) \<or> (90 \<le> d \<and> d \<le> 100) \<or> (100 \<le> p \<and> p \<le> 120)
        then ''MEDIUM''
      else ''LOW'')"

subsection \<open>Requests and responses\<close>

text \<open>
  A route is registered for GET and POST, so a handler sees one of the two methods.
  \<^verbatim>\<open>request.form\<close> is a dictionary from field names to texts; reading a missing field
  raises \<^verbatim>\<open>BadRequestKeyError\<close>.
\<close>

datatype http_method = GET | POST

record request =
  req_method :: http_method
  form :: "string \<rightharpoonup> string"

definition form_get :: "request \<Rightarrow> string \<Rightarrow> py_error + string" where
  "form_get rq k = (case form rq k of None \<Rightarrow> Inl (BadRequestKeyError k) | Some v \<Rightarrow> Inr v)"

text \<open>
  What a handler returns: a redirect to an endpoint, or a template with the values
  handed to it. In \<open>Render_patient_details\<close> the value \<open>None\<close> is the empty dictionary
  that \<^verbatim>\<open>patients.get(name, {})\<close> yields for an unknown name.
\<close>

datatype response =
  Redirect_index
  | Redirect_patient_details string
  | Render_index patients
  | Render_add_patient
  | Render_patient_details string "patient option"
  | Render_alerts "string list"

text \<open>\<^verbatim>\<open>s.split(",")\<close>: every comma separates, empty pieces are kept.\<close>

fun split_comma :: "string \<Rightarrow> string list" where
  "split_comma [] = [[]]"
| "split_comma (c # cs) =
     (if c = CHR '','' then [] # split_comma cs
      else (case split_comma cs of [] \<Rightarrow> [[c]] | w # ws \<Rightarrow> (c # w) # ws))"

subsection \<open>Routes\<close>

definition index :: "files \<Rightarrow> py_error + response" where
  "index fs = (case load_patients fs of Inl e \<Rightarrow> Inl e | Inr ps \<Rightarrow> Inr (Render_index ps))"

text \<open>
  A handler returns its outcome, an exception or a response, and the files as it leaves
  them. The fields are read in the order of the source, so the first missing one is the
  one reported.
\<close>

definition add_patient :: "request \<Rightarrow> files \<Rightarrow> (py_error + response) \<times> files" where
  "add_patient rq fs =
     (if req_method rq = POST then
        (case load_patients fs of Inl e \<Rightarrow> (Inl e, fs) | Inr ps \<Rightarrow>
        (case form_get rq ''name'' of Inl e \<Rightarrow> (Inl e, fs) | Inr name \<Rightarrow>
        (case form_get rq ''doctor'' of Inl e \<Rightarrow> (Inl e, fs) | Inr dr \<Rightarrow>
        (case form_get rq ''disease'' of Inl e \<Rightarrow> (Inl e, fs) | Inr dis \<Rightarrow>
        (case form_get rq ''medicines'' of Inl e \<Rightarrow> (Inl e, fs) | Inr meds \<Rightarrow>
        (case form_get rq ''tests'' of Inl e \<Rightarrow> (Inl e, fs) | Inr ts \<Rightarrow>
           (Inr Redirect_index,
            save_patients
              (ps(name \<mapsto> \<lparr>doctor = dr, disease = dis, medicines = split_comma meds,
                             tests = ts, vitals = []\<rparr>))
              fs)))))))
      else (Inr Render_add_patient, fs))"

text \<open>
  \<open>py_int\<close> stands for Python's built-in \<^verbatim>\<open>int\<close> on texts: it returns an integer or
  raises \<^verbatim>\<open>ValueError\<close>. It is a parameter, so everything proved below holds whatever
  texts it accepts. \<open>now\<close> is the clock's text, should an alert be logged.

  \<open>pt\<close> is \<^verbatim>\<open>patients.get(name, {})\<close>, with \<open>None\<close> for the empty dictionary; reading
  its key \<^verbatim>\<open>"vitals"\<close> raises \<^verbatim>\<open>KeyError\<close> then. For a known name \<^verbatim>\<open>patient\<close> is the
  very dictionary inside \<^verbatim>\<open>patients\<close>, so the append already changes \<^verbatim>\<open>patients\<close>,
  and the assignment \<^verbatim>\<open>patients[name] = patient\<close> stores it under the same key.
\<close>

definition form_int :: "(string \<Rightarrow> py_error + int) \<Rightarrow> request \<Rightarrow> string \<Rightarrow> py_error + int" where
  "form_int py_int rq k = (case form_get rq k of Inl e \<Rightarrow> Inl e | Inr v \<Rightarrow> py_int v)"

definition patient_details ::
  "(string \<Rightarrow> py_error + int) \<Rightarrow> string \<Rightarrow> string \<Rightarrow> request \<Rightarrow> files
     \<Rightarrow> (py_error + response) \<times> files" where
  "patient_details py_int now name rq fs =
     (case load_patients fs of Inl e \<Rightarrow> (Inl e, fs) | Inr ps \<Rightarrow>
      (let pt = ps name in
       if req_method rq = POST then
         (case form_int py_int rq ''bp_sys'' of Inl e \<Rightarrow> (Inl e, fs) | Inr s \<Rightarrow>
         (case form_int py_int rq ''bp_dia'' of Inl e \<Rightarrow> (Inl e, fs) | Inr d \<Rightarrow>
         (case form_int py_int rq ''pulse'' of Inl e \<Rightarrow> (Inl e, fs) | Inr p \<Rightarrow>
           (let r = assess_risk s d p;
                v = \<lparr>bp_sys = s, bp_dia = d, pulse = p, risk = r\<rparr>
            in (case pt of
                  None \<Rightarrow> (Inl (KeyError ''vitals''), fs)
                | Some pat \<Rightarrow>
                    (let pat' = pat\<lparr>vitals := vitals pat @ [v]\<rparr>;
                         fs' = (if r = ''HIGH''
                                then log_alert now
                                       (''High Risk Alert for '' @ name
                                        @ ''! Notify Doctor: '' @ doctor pat') fs
                                else fs)
                     in (Inr (Redirect_patient_details name),
                         save_patients (ps(name \<mapsto> pat')) fs')))))))
       else (Inr (Render_patient_details name pt), fs)))"

text \<open>
  Reading a text file translates \<^verbatim>\<open>"\r\n"\<close> and a lone \<^verbatim>\<open>"\r"\<close> to \<^verbatim>\<open>"\n"\<close>;
  \<^verbatim>\<open>readlines\<close> then cuts after every \<^verbatim>\<open>"\n"\<close> and keeps it.
\<close>

fun universal_newlines :: "string \<Rightarrow> string" where
  "universal_newlines [] = []"
| "universal_newlines (c # cs) =
     (if c = CHR 0x0D then
        (case cs of
           [] \<Rightarrow> [CHR 0x0A]
         | c' # cs' \<Rightarrow>
             if c' = CHR 0x0A then CHR 0x0A # universal_newlines cs'
             else CHR 0x0A # universal_newlines cs)
      else c # universal_newlines cs)"

fun keepends :: "string \<Rightarrow> string list" where
  "keepends [] = []"
| "keepends (c # cs) =
     (if c = CHR 0x0A then [c] # keepends cs
      else (case keepends cs of [] \<Rightarrow> [[c]] | l # ls \<Rightarrow> (c # l) # ls))"

definition readlines :: "string \<Rightarrow> string list" where
  "readlines t = keepends (universal_newlines t)"

definition view_alerts :: "files \<Rightarrow> response" where
  "view_alerts fs =
     (case alerts_file fs of
        None \<Rightarrow> Render_alerts []
      | Some t \<Rightarrow> Render_alerts (readlines t))"

subsection \<open>Sequences of requests, and what the claims count\<close>

text \<open>
  The states that the application reaches from nothing: no file exists, then any
  requests to \<^verbatim>\<open>/add\<close> and \<^verbatim>\<open>/patient/<name>\<close> follow, each with any method, form and
  clock. The two other routes write nothing.
\<close>

inductive reachable :: "(string \<Rightarrow> py_error + int) \<Rightarrow> files \<Rightarrow> bool"
  for py_int :: "string \<Rightarrow> py_error + int" where
  initial: "reachable py_int \<lparr>patients_file = None, alerts_file = None\<rparr>"
| added: "reachable py_int fs \<Longrightarrow> reachable py_int (snd (add_patient rq fs))"
| detailed:
    "reachable py_int fs \<Longrightarrow> reachable py_int (snd (patient_details py_int now name rq fs))"

text \<open>
  A sequence of requests to \<^verbatim>\<open>/patient/<name>\<close>, each with its clock, its name and its
  request, run one after the other on the files the previous one left.
\<close>

fun run_details ::
  "(string \<Rightarrow> py_error + int) \<Rightarrow> (string \<times> string \<times> request) list \<Rightarrow> files \<Rightarrow> files" where
  "run_details py_int [] fs = fs"
| "run_details py_int ((now, name, rq) # ops) fs =
     run_details py_int ops (snd (patient_details py_int now name rq fs))"

text \<open>The lines that \<^verbatim>\<open>view_alerts\<close> hands to its template.\<close>

definition alert_lines :: "files \<Rightarrow> string list" where
  "alert_lines fs = (case view_alerts fs of Render_alerts ls \<Rightarrow> ls | _ \<Rightarrow> [])"

text \<open>A line mentions a name when the name occurs in it, as a contiguous piece.\<close>

definition mentioning :: "string \<Rightarrow> files \<Rightarrow> nat" where
  "mentioning name fs = length (filter (sublist name) (alert_lines fs))"

definition high_readings :: "patient \<Rightarrow> nat" where
  "high_readings pat = length (filter (\<lambda>v. risk v = ''HIGH'') (vitals pat))"

definition high_count :: "patients \<Rightarrow> string \<Rightarrow> nat" where
  "high_count ps name = (case ps name of None \<Rightarrow> 0 | Some pat \<Rightarrow> high_readings pat)"

definition stored_high_count :: "files \<Rightarrow> string \<Rightarrow> nat" where
  "stored_high_count fs name =
     (case load_patients fs of Inl e \<Rightarrow> 0 | Inr ps \<Rightarrow> high_count ps name)"

text \<open>A text without a line feed and without a carriage return.\<close>

definition no_break :: "string \<Rightarrow> bool" where
  "no_break t = (CHR 0x0A \<notin> set t \<and> CHR 0x0D \<notin> set t)"

definition alert_text :: "files \<Rightarrow> string" where
  "alert_text fs = (case alerts_file fs of None \<Rightarrow> [] | Some t \<Rightarrow> t)"

text \<open>A text that \<^verbatim>\<open>readlines\<close> cuts into whole lines: no carriage return, and the last
  line, if any, is closed.\<close>

definition good_text :: "string \<Rightarrow> bool" where
  "good_text t = (CHR 0x0D \<notin> set t \<and> (t = [] \<or> last t = CHR 0x0A))"

text \<open>
  The text that \<open>log_alert\<close> appends for a HIGH reading of the patient \<open>name\<close>, whose
  doctor is \<open>dr\<close>, when the clock reads \<open>now\<close>.
\<close>

definition alert_entry :: "string \<Rightarrow> string \<Rightarrow> string \<Rightarrow> string" where
  "alert_entry now name dr =
     now @ '' - '' @ (''High Risk Alert for '' @ name @ ''! Notify Doctor: '' @ dr) @ [CHR 0x0A]"

text \<open>
  The name \<open>n\<close> occurs in no line that one of the requests \<open>ops\<close> can write for another
  patient of the store \<open>ps\<close>.
\<close>

definition only_own_lines ::
  "patients \<Rightarrow> (string \<times> string \<times> request) list \<Rightarrow> string \<Rightarrow> bool" where
  "only_own_lines ps ops n =
     (\<forall>(now, m, rq) \<in> set ops. \<forall>pat. m \<noteq> n \<and> ps m = Some pat \<longrightarrow>
        \<not> sublist n (alert_entry now m (doctor pat)))"

text \<open>
  What a sequence of recordings keeps true of the store and the log: the log has as many
  lines as the store has HIGH readings, and every patient's name is in at least as many
  lines as the patient has HIGH readings, in exactly as many for the names in \<open>E\<close>.
  \<open>docs\<close> gives the doctor of every name in the store; the recordings do not change it.
\<close>

definition alerts_inv :: "(string \<rightharpoonup> string) \<Rightarrow> string set \<Rightarrow> files \<Rightarrow> bool" where
  "alerts_inv docs E fs =
     (\<exists>ps. load_patients fs = Inr ps \<and> (\<forall>n. map_option doctor (ps n) = docs n)
        \<and> finite (dom docs)
        \<and> good_text (alert_text fs)
        \<and> (\<forall>n pat. ps n = Some pat \<longrightarrow>
              no_break n \<and> no_break (doctor pat) \<and> high_readings pat \<le> mentioning n fs
              \<and> (n \<in> E \<longrightarrow> high_readings pat = mentioning n fs))
        \<and> (\<Sum>n\<in>dom docs. high_count ps n) = length (alert_lines fs))"

text \<open>Every stored reading carries the risk that \<open>assess_risk\<close> gives to its own values.\<close>

definition risk_computed :: "patients \<Rightarrow> bool" where
  "risk_computed ps =
     (\<forall>name pat. ps name = Some pat \<longrightarrow>
        (\<forall>v \<in> set (vitals pat). risk v = assess_risk (bp_sys v) (bp_dia v) (pulse v)))"

subsection \<open>Examples\<close>

text \<open>
  An instance of the parameter \<open>py_int\<close> for the examples: the value of a non-empty text
  of ASCII digits, which is what Python's \<^verbatim>\<open>int\<close> returns for it, and \<^verbatim>\<open>ValueError\<close>
  for every other text.
\<close>

definition decimal_int :: "string \<Rightarrow> py_error + int" where
  "decimal_int t =
     (if t \<noteq> [] \<and> list_all (\<lambda>c. c \<in> set ''0123456789'') t
      then Inr (int (foldl (\<lambda>n c. 10 * n + (of_char c - 48)) 0 t))
      else Inl ValueError)"

definition al :: patient where
  "al = \<lparr>doctor = ''Dr. Jones'', disease = ''asthma'', medicines = [''salbutamol''],
         tests = ''spirometry'', vitals = []\<rparr>"

definition alice :: patient where
  "alice = \<lparr>doctor = ''Dr. Smith'', disease = ''hypertension'',
            medicines = [''amlodipine'', '' aspirin''], tests = ''ECG'', vitals = []\<rparr>"

definition demo_store :: patients where
  "demo_store = [''Al'' \<mapsto> al, ''Alice'' \<mapsto> alice]"

definition demo_files :: files where
  "demo_files = \<lparr>patients_file = Some (Document demo_store), alerts_file = None\<rparr>"

definition high_form :: request where
  "high_form = \<lparr>req_method = POST,
                form = [''bp_sys'' \<mapsto> ''170'', ''bp_dia'' \<mapsto> ''95'', ''pulse'' \<mapsto> ''80'']\<rparr>"

definition add_form :: request where
  "add_form = \<lparr>req_method = POST,
               form = [''name'' \<mapsto> ''Alice'', ''doctor'' \<mapsto> ''Dr. Brown'',
                       ''disease'' \<mapsto> ''flu'', ''medicines'' \<mapsto> ''a,b'',
                       ''tests'' \<mapsto> ''none'']\<rparr>"

definition demo_now :: string where
  "demo_now = ''2024-05-01 10:30:00.000000''"

definition demo_ops :: "(string \<times> string \<times> request) list" where
  "demo_ops = [(demo_now, ''Alice'', high_form)]"

definition demo_reached :: files where
  "demo_reached =
     snd (patient_details decimal_int demo_now ''Alice'' high_form
            (snd (add_patient add_form \<lparr>patients_file = None, alerts_file = None\<rparr>)))"

definition demo_reading :: vital_reading where
  "demo_reading = \<lparr>bp_sys = 170, bp_dia = 95, pulse = 80, risk = ''HIGH''\<rparr>"

section \<open>Facts about the files\<close>

lemma load_patients_save [simp]: "load_patients (save_patients P fs) = Inr P"
  by (simp add: load_patients_def save_patients_def)

lemma alerts_file_save [simp]: "alerts_file (save_patients P fs) = alerts_file fs"
  by (simp add: save_patients_def)

lemma load_patients_log_alert [simp]: "load_patients (log_alert now m fs) = load_patients fs"
  by (simp add: load_patients_def log_alert_def)

lemma universal_newlines_id: "CHR 0x0D \<notin> set t \<Longrightarrow> universal_newlines t = t"
  by (induction t) auto

lemma keepends_Nil_iff: "keepends t = [] \<longleftrightarrow> t = []"
  by (cases t) (auto split: list.splits)

lemma keepends_one_line:
  "CHR 0x0A \<notin> set b \<Longrightarrow> keepends (b @ [CHR 0x0A]) = [b @ [CHR 0x0A]]"
  by (induction b) auto

lemma keepends_append_line:
  assumes "t = [] \<or> last t = CHR 0x0A" and "CHR 0x0A \<notin> set b"
  shows "keepends (t @ b @ [CHR 0x0A]) = keepends t @ [b @ [CHR 0x0A]]"
  using assms
proof (induction t)
  case Nil
  then show ?case by (simp add: keepends_one_line)
next
  case (Cons c cs)
  show ?case
  proof (cases "cs = []")
    case True
    with Cons.prems show ?thesis by (simp add: keepends_one_line)
  next
    case False
    with Cons.prems have "last cs = CHR 0x0A" by simp
    with Cons.IH Cons.prems have ih: "keepends (cs @ b @ [CHR 0x0A]) = keepends cs @ [b @ [CHR 0x0A]]"
      by simp
    from False obtain l ls where "keepends cs = l # ls"
      by (cases "keepends cs") (auto simp: keepends_Nil_iff)
    with ih show ?thesis by simp
  qed
qed

lemma readlines_append_line:
  assumes "good_text t" and "no_break b"
  shows "readlines (t @ b @ [CHR 0x0A]) = readlines t @ [b @ [CHR 0x0A]]"
proof -
  have "CHR 0x0D \<notin> set (t @ b @ [CHR 0x0A])"
    using assms by (simp add: good_text_def no_break_def)
  then have "universal_newlines (t @ b @ [CHR 0x0A]) = t @ b @ [CHR 0x0A]"
    by (rule universal_newlines_id)
  moreover have "universal_newlines t = t"
    using assms by (simp add: good_text_def universal_newlines_id)
  ultimately show ?thesis
    using assms by (simp add: readlines_def keepends_append_line good_text_def no_break_def)
qed

lemma good_text_append_line: "good_text t \<Longrightarrow> no_break b \<Longrightarrow> good_text (t @ b @ [CHR 0x0A])"
  by (simp add: good_text_def no_break_def)

lemma alert_lines_text: "alert_lines fs = readlines (alert_text fs)"
  by (simp add: alert_lines_def view_alerts_def alert_text_def readlines_def split: option.splits)

lemma alert_text_log_alert:
  "alert_text (log_alert now m fs) = alert_text fs @ (now @ '' - '' @ m) @ [CHR 0x0A]"
  by (simp add: alert_text_def log_alert_def)

lemma alert_text_save [simp]: "alert_text (save_patients P fs) = alert_text fs"
  by (simp add: alert_text_def)

subsection \<open>The examples, evaluated\<close>

lemma demo_loads: "load_patients demo_files = Inr demo_store"
  by (simp add: load_patients_def demo_files_def)

lemma high_form_ints:
  "form_int decimal_int high_form ''bp_sys'' = Inr 170"
  "form_int decimal_int high_form ''bp_dia'' = Inr 95"
  "form_int decimal_int high_form ''pulse'' = Inr 80"
  by (simp_all add: form_int_def form_get_def high_form_def decimal_int_def)

lemma demo_after:
  "run_details decimal_int demo_ops demo_files =
     \<lparr>patients_file = Some (Document (demo_store(''Alice'' \<mapsto>
          alice\<lparr>vitals := [\<lparr>bp_sys = 170, bp_dia = 95, pulse = 80, risk = ''HIGH''\<rparr>]\<rparr>))),
      alerts_file = Some (demo_now @ '' - High Risk Alert for Alice! Notify Doctor: Dr. Smith'' @ [CHR 0x0A])\<rparr>"
  by (simp add: demo_ops_def demo_files_def patient_details_def load_patients_def
      save_patients_def log_alert_def form_int_def form_get_def high_form_def
      decimal_int_def assess_risk_def demo_store_def alice_def Let_def)

lemma demo_reached_eq:
  "demo_reached =
     \<lparr>patients_file = Some (Document [''Alice'' \<mapsto>
          \<lparr>doctor = ''Dr. Brown'', disease = ''flu'', medicines = [''a'', ''b''], tests = ''none'',
           vitals = [demo_reading]\<rparr>]),
      alerts_file = Some (demo_now @ '' - High Risk Alert for Alice! Notify Doctor: Dr. Brown'' @ [CHR 0x0A])\<rparr>"
  by (simp add: demo_reached_def add_patient_def patient_details_def load_patients_def
      save_patients_def log_alert_def form_int_def form_get_def high_form_def add_form_def
      decimal_int_def assess_risk_def demo_reading_def Let_def)

section \<open>The risk classifier\<close>

text \<open>
  C1. For all integers, \<open>assess_risk\<close> returns HIGH exactly when the systolic pressure is
  above 160 or the diastolic pressure above 100 or the pulse above 120; otherwise MEDIUM
  exactly when the systolic pressure is in [140,160] or the diastolic in [90,100] or the
  pulse in [100,120]; otherwise LOW. At (160, 0, 0) it is MEDIUM and at (161, 0, 0) HIGH.
\<close>

theorem assess_risk_tiers:
  "(assess_risk s d p = ''HIGH'') = (s > 160 \<or> d > 100 \<or> p > 120)
   \<and> (assess_risk s d p = ''MEDIUM'') =
       ((s \<le> 160 \<and> d \<le> 100 \<and> p \<le> 120)
        \<and> ((140 \<le> s \<and> s \<le> 160) \<or> (90 \<le> d \<and> d \<le> 100) \<or> (100 \<le> p \<and> p \<le> 120)))
   \<and> (assess_risk s d p = ''LOW'') =
       ((s \<le> 160 \<and> d \<le> 100 \<and> p \<le> 120)
        \<and> (s < 140 \<and> d < 90 \<and> p < 100))
   \<and> assess_risk 160 0 0 = ''MEDIUM''
   \<and> assess_risk 161 0 0 = ''HIGH''"
  by (auto simp: assess_risk_def)

section \<open>Adding a patient\<close>

text \<open>
  C8. A POST to \<^verbatim>\<open>/add\<close> whose name is already in the store raises nothing and replaces
  the whole record by the new one, whose vitals are empty: nothing of the old record,
  its vitals included, is kept. The alert log is not touched.
\<close>

theorem add_patient_overwrites:
  assumes "load_patients fs = Inr ps" and "ps name = Some old" and "req_method rq = POST"
    and "form rq ''name'' = Some name" and "form rq ''doctor'' = Some dr"
    and "form rq ''disease'' = Some dis" and "form rq ''medicines'' = Some meds"
    and "form rq ''tests'' = Some ts"
  shows "fst (add_patient rq fs) = Inr Redirect_index
         \<and> load_patients (snd (add_patient rq fs)) =
             Inr (ps(name \<mapsto> \<lparr>doctor = dr, disease = dis, medicines = split_comma meds,
                                tests = ts, vitals = []\<rparr>))
         \<and> alerts_file (snd (add_patient rq fs)) = alerts_file fs"
  using assms by (simp add: add_patient_def form_get_def)

theorem add_patient_overwrites_witness:
  "load_patients demo_files = Inr demo_store \<and> demo_store ''Alice'' = Some alice
   \<and> fst (add_patient add_form demo_files) = Inr Redirect_index
   \<and> load_patients (snd (add_patient add_form demo_files)) =
       Inr (demo_store(''Alice'' \<mapsto> \<lparr>doctor = ''Dr. Brown'', disease = ''flu'',
                                       medicines = [''a'', ''b''], tests = ''none'',
                                       vitals = []\<rparr>))
   \<and> alerts_file (snd (add_patient add_form demo_files)) = alerts_file demo_files"
proof -
  have h2: "demo_store ''Alice'' = Some alice" by (simp add: demo_store_def)
  have h3: "req_method add_form = POST" by (simp add: add_form_def)
  have f: "form add_form ''name'' = Some ''Alice''" "form add_form ''doctor'' = Some ''Dr. Brown''"
    "form add_form ''disease'' = Some ''flu''" "form add_form ''medicines'' = Some ''a,b''"
    "form add_form ''tests'' = Some ''none''"
    by (simp_all add: add_form_def)
  from add_patient_overwrites [OF demo_loads h2 h3 f] demo_loads h2
  show ?thesis by simp
qed

section \<open>Recording vitals\<close>



text \<open>
  C5. When a POST to \<^verbatim>\<open>/patient/<name>\<close> completes for a patient of the store, the
  patient's new vitals are the previous ones followed by exactly one reading: the
  previous sequence is a prefix of the new one, and no reading of it is changed or
  removed. The new reading holds the three integers of the form and their risk.
\<close>

theorem record_vitals_appends:
  assumes "load_patients fs = Inr ps" and "ps name = Some pat" and "req_method rq = POST"
    and "fst (patient_details py_int now name rq fs) = Inr r"
  shows "\<exists>ps' pat' v. load_patients (snd (patient_details py_int now name rq fs)) = Inr ps'
           \<and> ps' name = Some pat'
           \<and> vitals pat' = vitals pat @ [v]
           \<and> prefix (vitals pat) (vitals pat')
           \<and> length (vitals pat') = length (vitals pat) + 1
           \<and> form_int py_int rq ''bp_sys'' = Inr (bp_sys v)
           \<and> form_int py_int rq ''bp_dia'' = Inr (bp_dia v)
           \<and> form_int py_int rq ''pulse'' = Inr (pulse v)
           \<and> risk v = assess_risk (bp_sys v) (bp_dia v) (pulse v)"
  using assms by (auto simp: patient_details_def Let_def split: sum.splits)

theorem record_vitals_appends_witness:
  "load_patients demo_files = Inr demo_store \<and> demo_store ''Alice'' = Some alice
   \<and> req_method high_form = POST
   \<and> fst (patient_details decimal_int demo_now ''Alice'' high_form demo_files)
       = Inr (Redirect_patient_details ''Alice'')
   \<and> (\<exists>ps' pat' v.
         load_patients (snd (patient_details decimal_int demo_now ''Alice'' high_form demo_files))
           = Inr ps'
         \<and> ps' ''Alice'' = Some pat'
         \<and> vitals pat' = vitals alice @ [v]
         \<and> prefix (vitals alice) (vitals pat')
         \<and> length (vitals pat') = length (vitals alice) + 1
         \<and> form_int decimal_int high_form ''bp_sys'' = Inr (bp_sys v)
         \<and> form_int decimal_int high_form ''bp_dia'' = Inr (bp_dia v)
         \<and> form_int decimal_int high_form ''pulse'' = Inr (pulse v)
         \<and> risk v = assess_risk (bp_sys v) (bp_dia v) (pulse v))"
proof -
  have h2: "demo_store ''Alice'' = Some alice" by (simp add: demo_store_def)
  have h3: "req_method high_form = POST" by (simp add: high_form_def)
  have h4: "fst (patient_details decimal_int demo_now ''Alice'' high_form demo_files)
              = Inr (Redirect_patient_details ''Alice'')"
    by (simp add: patient_details_def demo_loads h2 h3 high_form_ints Let_def)
  from record_vitals_appends [OF demo_loads h2 h3 h4] demo_loads h2 h3 h4
  show ?thesis by blast
qed

text \<open>
  C10. A request to \<^verbatim>\<open>/patient/<name>\<close> for a patient of the store leaves the patient's
  doctor, disease, medicines and tests, and every other patient's record, as they were
  in the saved document.
\<close>

theorem patient_details_frame:
  assumes "load_patients fs = Inr ps" and "ps name = Some pat"
  shows "\<exists>ps' pat'. load_patients (snd (patient_details py_int now name rq fs)) = Inr ps'
           \<and> ps' name = Some pat'
           \<and> doctor pat' = doctor pat \<and> disease pat' = disease pat
           \<and> medicines pat' = medicines pat \<and> tests pat' = tests pat
           \<and> (\<forall>other. other \<noteq> name \<longrightarrow> ps' other = ps other)"
  using assms by (auto simp: patient_details_def Let_def split: sum.splits)

theorem patient_details_frame_witness:
  "load_patients demo_files = Inr demo_store \<and> demo_store ''Alice'' = Some alice
   \<and> (\<exists>ps' pat'.
         load_patients (snd (patient_details decimal_int demo_now ''Alice'' high_form demo_files))
           = Inr ps'
         \<and> ps' ''Alice'' = Some pat'
         \<and> doctor pat' = doctor alice \<and> disease pat' = disease alice
         \<and> medicines pat' = medicines alice \<and> tests pat' = tests alice
         \<and> (\<forall>other. other \<noteq> ''Alice'' \<longrightarrow> ps' other = demo_store other))"
proof -
  have h2: "demo_store ''Alice'' = Some alice" by (simp add: demo_store_def)
  from patient_details_frame [OF demo_loads h2, of decimal_int demo_now high_form] demo_loads h2
  show ?thesis by simp
qed

subsection \<open>The stored risk\<close>

lemma risk_computed_empty: "risk_computed Map.empty"
  by (simp add: risk_computed_def)

lemma risk_computed_add:
  "risk_computed ps \<Longrightarrow> vitals pat = [] \<Longrightarrow> risk_computed (ps(name \<mapsto> pat))"
  by (simp add: risk_computed_def)

lemma risk_computed_append:
  "risk_computed ps \<Longrightarrow> ps name = Some pat \<Longrightarrow>
   risk_computed (ps(name \<mapsto> pat\<lparr>vitals := vitals pat @
      [\<lparr>bp_sys = s, bp_dia = d, pulse = p, risk = assess_risk s d p\<rparr>]\<rparr>))"
  by (auto simp: risk_computed_def)

lemma add_patient_loads:
  "load_patients fs = Inr ps \<Longrightarrow> risk_computed ps \<Longrightarrow>
   \<exists>ps'. load_patients (snd (add_patient rq fs)) = Inr ps' \<and> risk_computed ps'"
  by (auto simp: add_patient_def risk_computed_add split: sum.splits)

lemma patient_details_loads:
  "load_patients fs = Inr ps \<Longrightarrow> risk_computed ps \<Longrightarrow>
   \<exists>ps'. load_patients (snd (patient_details py_int now name rq fs)) = Inr ps' \<and> risk_computed ps'"
  by (auto simp: patient_details_def Let_def risk_computed_append split: sum.splits option.splits)

lemma reachable_loads:
  "reachable py_int fs \<Longrightarrow> \<exists>ps. load_patients fs = Inr ps \<and> risk_computed ps"
proof (induction rule: reachable.induct)
  case initial
  show ?case by (simp add: load_patients_def risk_computed_empty)
next
  case (added fs rq)
  then show ?case using add_patient_loads by blast
next
  case (detailed fs now name rq)
  then show ?case using patient_details_loads by blast
qed

text \<open>
  C4. In every state that the application reaches, every reading of every patient has as
  its risk the value of \<open>assess_risk\<close> at the reading's own three values.
\<close>

theorem stored_risk_is_assessed:
  assumes "reachable py_int fs" and "load_patients fs = Inr ps" and "ps name = Some pat"
    and "v \<in> set (vitals pat)"
  shows "risk v = assess_risk (bp_sys v) (bp_dia v) (pulse v)"
  using reachable_loads [OF assms(1)] assms(2-4) by (auto simp: risk_computed_def)

theorem stored_risk_is_assessed_witness:
  "reachable decimal_int demo_reached
   \<and> demo_reading \<in> set (vitals \<lparr>doctor = ''Dr. Brown'', disease = ''flu'',
         medicines = [''a'', ''b''], tests = ''none'', vitals = [demo_reading]\<rparr>)
   \<and> risk demo_reading = assess_risk (bp_sys demo_reading) (bp_dia demo_reading) (pulse demo_reading)"
proof -
  have h1: "reachable decimal_int demo_reached"
    unfolding demo_reached_def by (intro reachable.intros)
  have h2: "load_patients demo_reached = Inr [''Alice'' \<mapsto>
          \<lparr>doctor = ''Dr. Brown'', disease = ''flu'', medicines = [''a'', ''b''], tests = ''none'',
           vitals = [demo_reading]\<rparr>]"
    by (simp add: demo_reached_eq load_patients_def)
  have h3: "[''Alice'' \<mapsto>
          \<lparr>doctor = ''Dr. Brown'', disease = ''flu'', medicines = [''a'', ''b''], tests = ''none'',
           vitals = [demo_reading]\<rparr>] ''Alice'' = Some \<lparr>doctor = ''Dr. Brown'', disease = ''flu'', medicines = [''a'', ''b''], tests = ''none'',
           vitals = [demo_reading]\<rparr>" by simp
  have h4: "demo_reading \<in> set (vitals \<lparr>doctor = ''Dr. Brown'', disease = ''flu'',
         medicines = [''a'', ''b''], tests = ''none'', vitals = [demo_reading]\<rparr>)" by simp
  from stored_risk_is_assessed [OF h1 h2 h3 h4] h1 h4 show ?thesis by blast
qed

subsection \<open>The alert log\<close>

lemma patient_details_effect:
  assumes "load_patients fs = Inr ps"
  shows "snd (patient_details py_int now name rq fs) = fs
     \<or> (\<exists>pat s d p. ps name = Some pat \<and> snd (patient_details py_int now name rq fs) =
          save_patients
            (ps(name \<mapsto> pat\<lparr>vitals := vitals pat @
                 [\<lparr>bp_sys = s, bp_dia = d, pulse = p, risk = assess_risk s d p\<rparr>]\<rparr>))
            (if assess_risk s d p = ''HIGH''
             then log_alert now (''High Risk Alert for '' @ name @ ''! Notify Doctor: '' @ doctor pat) fs
             else fs))"
  using assms by (auto simp: patient_details_def Let_def split: sum.splits option.splits)

lemma high_count_update_sum:
  assumes "finite D" and "name \<in> D" and "dom ps = D" and "ps name = Some pat"
  shows "(\<Sum>n\<in>D. high_count (ps(name \<mapsto> pat')) n)
         = (\<Sum>n\<in>D. high_count ps n) + high_readings pat' - high_readings pat"
proof -
  have a: "(\<Sum>n\<in>D. high_count (ps(name \<mapsto> pat')) n)
        = high_readings pat' + (\<Sum>n\<in>D - {name}. high_count (ps(name \<mapsto> pat')) n)"
    using assms by (simp add: sum.remove [of D name] high_count_def)
  have b: "(\<Sum>n\<in>D. high_count ps n) = high_readings pat + (\<Sum>n\<in>D - {name}. high_count ps n)"
    using assms by (simp add: sum.remove [of D name] high_count_def)
  have c: "(\<Sum>n\<in>D - {name}. high_count (ps(name \<mapsto> pat')) n) = (\<Sum>n\<in>D - {name}. high_count ps n)"
    by (rule sum.cong) (auto simp: high_count_def)
  from a b c show ?thesis by simp
qed

lemma log_alert_entry:
  "alert_text (log_alert now (''High Risk Alert for '' @ name @ ''! Notify Doctor: '' @ dr) fs)
     = alert_text fs @ alert_entry now name dr"
  by (simp add: alert_text_def log_alert_def alert_entry_def)

lemma alert_entry_line:
  assumes "good_text t" and "no_break now" and "no_break name" and "no_break dr"
  shows "readlines (t @ alert_entry now name dr) = readlines t @ [alert_entry now name dr]"
    and "good_text (t @ alert_entry now name dr)"
proof -
  let ?b = "now @ '' - '' @ (''High Risk Alert for '' @ name @ ''! Notify Doctor: '' @ dr)"
  have b: "no_break ?b" using assms(2-4) by (simp add: no_break_def)
  have e: "alert_entry now name dr = ?b @ [CHR 0x0A]" by (simp add: alert_entry_def)
  show "readlines (t @ alert_entry now name dr) = readlines t @ [alert_entry now name dr]"
    unfolding e by (rule readlines_append_line [OF assms(1) b])
  show "good_text (t @ alert_entry now name dr)"
    unfolding e by (rule good_text_append_line [OF assms(1) b])
qed

lemma sublist_own_entry: "sublist name (alert_entry now name dr)"
proof -
  have "sublist name ((now @ '' - '' @ ''High Risk Alert for '') @ name
          @ (''! Notify Doctor: '' @ dr @ [CHR 0x0A]))"
    by (rule sublist_appendI)
  then show ?thesis by (simp add: alert_entry_def)
qed

lemma alerts_inv_step:
  assumes inv: "alerts_inv docs E fs" and now: "no_break now"
    and foreign: "\<forall>n\<in>E. \<forall>dr. n \<noteq> name \<and> docs name = Some dr \<longrightarrow>
                    \<not> sublist n (alert_entry now name dr)"
  shows "alerts_inv docs E (snd (patient_details py_int now name rq fs))"
proof -
  from inv obtain ps where ps: "load_patients fs = Inr ps"
      "\<And>n. map_option doctor (ps n) = docs n" "finite (dom docs)"
      "good_text (alert_text fs)"
      "\<And>n pat. ps n = Some pat \<Longrightarrow>
          no_break n \<and> no_break (doctor pat) \<and> high_readings pat \<le> mentioning n fs
          \<and> (n \<in> E \<longrightarrow> high_readings pat = mentioning n fs)"
      "(\<Sum>n\<in>dom docs. high_count ps n) = length (alert_lines fs)"
    unfolding alerts_inv_def by blast
  have domeq: "dom ps = dom docs"
  proof -
    have "\<And>n. (ps n = None) = (docs n = None)" using ps(2) by (metis map_option_is_None)
    then show ?thesis by (auto simp: dom_def)
  qed
  from patient_details_effect [OF ps(1), of py_int now name rq]
  consider (same) "snd (patient_details py_int now name rq fs) = fs"
    | (app) pat s d p where "ps name = Some pat"
        "snd (patient_details py_int now name rq fs) =
          save_patients
            (ps(name \<mapsto> pat\<lparr>vitals := vitals pat @
                 [\<lparr>bp_sys = s, bp_dia = d, pulse = p, risk = assess_risk s d p\<rparr>]\<rparr>))
            (if assess_risk s d p = ''HIGH''
             then log_alert now (''High Risk Alert for '' @ name @ ''! Notify Doctor: '' @ doctor pat) fs
             else fs)"
    by blast
  then show ?thesis
  proof cases
    case same
    with inv show ?thesis by simp
  next
    case app
    let ?v = "\<lparr>bp_sys = s, bp_dia = d, pulse = p, risk = assess_risk s d p\<rparr>"
    let ?pat = "pat\<lparr>vitals := vitals pat @ [?v]\<rparr>"
    let ?ps = "ps(name \<mapsto> ?pat)"
    let ?fs = "snd (patient_details py_int now name rq fs)"
    from app(1) domeq have mem: "name \<in> dom docs" by auto
    from app(1) ps(2) [of name] have dname: "docs name = Some (doctor pat)" by simp
    have docs': "\<And>n. map_option doctor (?ps n) = docs n"
      using ps(2) dname by simp
    have load: "load_patients ?fs = Inr ?ps" by (simp add: app(2))
    from ps(5) [OF app(1)] have nb: "no_break name" "no_break (doctor pat)"
      and le: "high_readings pat \<le> mentioning name fs"
      and eq: "name \<in> E \<Longrightarrow> high_readings pat = mentioning name fs" by simp_all
    show ?thesis
    proof (cases "assess_risk s d p = ''HIGH''")
      case False
      then have atext: "alert_text ?fs = alert_text fs" by (simp add: app(2))
      then have lines: "alert_lines ?fs = alert_lines fs" by (simp add: alert_lines_text)
      then have ment: "\<And>n. mentioning n ?fs = mentioning n fs" by (simp add: mentioning_def)
      have hr: "high_readings ?pat = high_readings pat"
        using False by (simp add: high_readings_def)
      have total: "(\<Sum>n\<in>dom docs. high_count ?ps n) = length (alert_lines ?fs)"
        using high_count_update_sum [OF ps(3) mem domeq app(1), of ?pat] hr ps(6) lines by simp
      have each: "\<And>n q. ?ps n = Some q \<Longrightarrow>
          no_break n \<and> no_break (doctor q) \<and> high_readings q \<le> mentioning n ?fs
          \<and> (n \<in> E \<longrightarrow> high_readings q = mentioning n ?fs)"
      proof -
        fix n q assume q: "?ps n = Some q"
        show "no_break n \<and> no_break (doctor q) \<and> high_readings q \<le> mentioning n ?fs
          \<and> (n \<in> E \<longrightarrow> high_readings q = mentioning n ?fs)"
        proof (cases "n = name")
          case True
          with q have "q = ?pat" by simp
          with True nb le eq hr ment [of name] show ?thesis by simp
        next
          case False
          with q have "ps n = Some q" by simp
          from ps(5) [OF this] ment [of n] show ?thesis by simp
        qed
      qed
      show ?thesis
        unfolding alerts_inv_def using load docs' ps(3) ps(4) atext each total by auto
    next
      case True
      let ?e = "alert_entry now name (doctor pat)"
      have after: "?fs = save_patients ?ps
          (log_alert now (''High Risk Alert for '' @ name @ ''! Notify Doctor: '' @ doctor pat) fs)"
        using app(2) True by (simp only: simp_thms if_True)
      have atext: "alert_text ?fs = alert_text fs @ ?e"
        unfolding after alert_text_save by (rule log_alert_entry)
      have good: "good_text (alert_text ?fs)"
        unfolding atext by (rule alert_entry_line(2) [OF ps(4) now nb])
      have lines: "alert_lines ?fs = alert_lines fs @ [?e]"
        using alert_entry_line(1) [OF ps(4) now nb] by (simp add: alert_lines_text atext)
      then have ment: "\<And>n. mentioning n ?fs = mentioning n fs + (if sublist n ?e then 1 else 0)"
        by (simp add: mentioning_def)
      have hr: "high_readings ?pat = high_readings pat + 1"
        using True by (simp add: high_readings_def)
      have total: "(\<Sum>n\<in>dom docs. high_count ?ps n) = length (alert_lines ?fs)"
        using high_count_update_sum [OF ps(3) mem domeq app(1), of ?pat] hr ps(6) lines by simp
      have each: "\<And>n q. ?ps n = Some q \<Longrightarrow>
          no_break n \<and> no_break (doctor q) \<and> high_readings q \<le> mentioning n ?fs
          \<and> (n \<in> E \<longrightarrow> high_readings q = mentioning n ?fs)"
      proof -
        fix n q assume q: "?ps n = Some q"
        show "no_break n \<and> no_break (doctor q) \<and> high_readings q \<le> mentioning n ?fs
          \<and> (n \<in> E \<longrightarrow> high_readings q = mentioning n ?fs)"
        proof (cases "n = name")
          case True
          with q have "q = ?pat" by simp
          with True nb le eq hr ment [of name] sublist_own_entry [of name now "doctor pat"]
          show ?thesis by simp
        next
          case False
          with q have old: "ps n = Some q" by simp
          have "n \<in> E \<Longrightarrow> \<not> sublist n ?e"
            using foreign False dname by blast
          with ps(5) [OF old] ment [of n] show ?thesis by simp
        qed
      qed
      show ?thesis
        unfolding alerts_inv_def using load docs' ps(3) good each total by auto
    qed
  qed
qed

lemma alerts_inv_run:
  "alerts_inv docs E fs \<Longrightarrow>
   \<forall>(now, name, rq) \<in> set ops. no_break now
      \<and> (\<forall>n\<in>E. \<forall>dr. n \<noteq> name \<and> docs name = Some dr \<longrightarrow> \<not> sublist n (alert_entry now name dr))
   \<Longrightarrow> alerts_inv docs E (run_details py_int ops fs)"
proof (induction ops arbitrary: fs)
  case Nil
  then show ?case by simp
next
  case (Cons op ops)
  obtain now name rq where op: "op = (now, name, rq)" by (cases op) auto
  with Cons.prems(2) have now: "no_break now"
    and foreign: "\<forall>n\<in>E. \<forall>dr. n \<noteq> name \<and> docs name = Some dr \<longrightarrow>
                    \<not> sublist n (alert_entry now name dr)"
    by simp_all
  from alerts_inv_step [OF Cons.prems(1) now foreign]
  have "alerts_inv docs E (snd (patient_details py_int now name rq fs))" .
  from Cons.IH [OF this] Cons.prems(2) op show ?case by simp
qed

text \<open>
  C2, as the code has it. Take a store whose patients have no reading yet and an alert
  log that is absent or empty, with no line break in a name, a doctor's name or a clock
  text. After any sequence of requests to \<^verbatim>\<open>/patient/<name>\<close> the alert log has exactly
  as many lines as the store has HIGH readings, so a line is written for every HIGH
  reading and for no other reading; and for every patient the number of HIGH readings
  is at most the number of alert lines that mention the patient's name. The two are
  equal for a patient whose name occurs in no line that the requests can write for
  another patient; otherwise they can differ, as a line written for one patient can
  contain the name of another.
\<close>

theorem alerts_follow_high_readings:
  assumes "load_patients fs = Inr ps" and "finite (dom ps)"
    and "\<forall>n pat. ps n = Some pat \<longrightarrow> vitals pat = [] \<and> no_break n \<and> no_break (doctor pat)"
    and "alerts_file fs = None \<or> alerts_file fs = Some []"
    and "\<forall>(now, name, rq) \<in> set ops. no_break now"
  shows "\<exists>ps'. load_patients (run_details py_int ops fs) = Inr ps' \<and> dom ps' = dom ps
           \<and> (\<Sum>n\<in>dom ps'. high_count ps' n) = length (alert_lines (run_details py_int ops fs))
           \<and> (\<forall>n pat. ps' n = Some pat \<longrightarrow>
                 high_readings pat \<le> mentioning n (run_details py_int ops fs)
                 \<and> (only_own_lines ps ops n \<longrightarrow>
                      high_readings pat = mentioning n (run_details py_int ops fs)))"
proof -
  let ?docs = "\<lambda>n. map_option doctor (ps n)"
  let ?E = "{n. only_own_lines ps ops n}"
  have atext: "alert_text fs = []"
    using assms(4) by (auto simp: alert_text_def)
  then have lines: "alert_lines fs = []"
    by (simp add: alert_lines_text readlines_def)
  have zero: "\<And>n. high_count ps n = 0"
    using assms(3) by (auto simp: high_count_def high_readings_def split: option.splits)
  have domd: "dom ?docs = dom ps" by (auto simp: dom_def)
  have "alerts_inv ?docs ?E fs"
    unfolding alerts_inv_def using assms(1-3) atext lines zero domd
    by (auto simp: good_text_def high_readings_def mentioning_def)
  moreover have "\<forall>(now, name, rq) \<in> set ops. no_break now
      \<and> (\<forall>n\<in>?E. \<forall>dr. n \<noteq> name \<and> ?docs name = Some dr \<longrightarrow> \<not> sublist n (alert_entry now name dr))"
    using assms(5) by (fastforce simp: only_own_lines_def)
  ultimately have "alerts_inv ?docs ?E (run_details py_int ops fs)"
    by (rule alerts_inv_run)
  then obtain ps' where r: "load_patients (run_details py_int ops fs) = Inr ps'"
      "\<And>n. map_option doctor (ps' n) = ?docs n"
      "\<And>n pat. ps' n = Some pat \<Longrightarrow>
          high_readings pat \<le> mentioning n (run_details py_int ops fs)
          \<and> (n \<in> ?E \<longrightarrow> high_readings pat = mentioning n (run_details py_int ops fs))"
      "(\<Sum>n\<in>dom ?docs. high_count ps' n) = length (alert_lines (run_details py_int ops fs))"
    unfolding alerts_inv_def by blast
  have "\<And>n. (ps' n = None) = (ps n = None)" using r(2) by (metis map_option_is_None)
  then have dom': "dom ps' = dom ps" by (auto simp: dom_def)
  from r(1) dom' r(3) r(4) domd show ?thesis by auto
qed

theorem alerts_follow_high_readings_witness:
  "load_patients demo_files = Inr demo_store
   \<and> only_own_lines demo_store demo_ops ''Alice''
   \<and> (\<exists>ps'. load_patients (run_details decimal_int demo_ops demo_files) = Inr ps'
         \<and> dom ps' = dom demo_store
         \<and> (\<Sum>n\<in>dom ps'. high_count ps' n)
             = length (alert_lines (run_details decimal_int demo_ops demo_files))
         \<and> (\<forall>n pat. ps' n = Some pat \<longrightarrow>
               high_readings pat \<le> mentioning n (run_details decimal_int demo_ops demo_files)
               \<and> (only_own_lines demo_store demo_ops n \<longrightarrow>
                    high_readings pat
                      = mentioning n (run_details decimal_int demo_ops demo_files))))"
proof -
  have h2: "finite (dom demo_store)" by (simp add: demo_store_def)
  have h3: "\<forall>n pat. demo_store n = Some pat \<longrightarrow>
              vitals pat = [] \<and> no_break n \<and> no_break (doctor pat)"
    by (auto simp: demo_store_def al_def alice_def no_break_def split: if_splits)
  have h4: "alerts_file demo_files = None \<or> alerts_file demo_files = Some []"
    by (simp add: demo_files_def)
  have h5: "\<forall>(now, name, rq) \<in> set demo_ops. no_break now"
    by (simp add: demo_ops_def demo_now_def no_break_def)
  have own: "only_own_lines demo_store demo_ops ''Alice''"
    by (simp add: only_own_lines_def demo_ops_def)
  from alerts_follow_high_readings [OF demo_loads h2 h3 h4 h5, of decimal_int] demo_loads own
  show ?thesis by simp
qed

text \<open>
  The two numbers of C2 differ in the example: Al and Alice have no reading and there is
  no alert log; one HIGH reading is recorded for Alice. Its line contains the text
  \<^verbatim>\<open>Al\<close>, so one alert line mentions Al, who has no HIGH reading.
\<close>

theorem alert_count_counterexample:
  "load_patients demo_files = Inr demo_store
   \<and> demo_store ''Al'' = Some al \<and> vitals al = []
   \<and> demo_store ''Alice'' = Some alice \<and> vitals alice = []
   \<and> alerts_file demo_files = None
   \<and> stored_high_count (run_details decimal_int demo_ops demo_files) ''Al'' = 0
   \<and> mentioning ''Al'' (run_details decimal_int demo_ops demo_files) = 1"
proof -
  have start: "demo_store ''Al'' = Some al \<and> vitals al = []
      \<and> demo_store ''Alice'' = Some alice \<and> vitals alice = []
      \<and> alerts_file demo_files = None"
    by (simp add: demo_store_def demo_files_def al_def alice_def)
  have after: "stored_high_count (run_details decimal_int demo_ops demo_files) ''Al'' = 0
      \<and> mentioning ''Al'' (run_details decimal_int demo_ops demo_files) = 1"
    by (simp add: demo_after stored_high_count_def load_patients_def high_count_def
        demo_store_def high_readings_def al_def mentioning_def alert_lines_def
        view_alerts_def readlines_def demo_now_def sublist_code)
  from demo_loads start after show ?thesis by simp
qed

end
